theory Spec2Isabelle
  imports Main "HOL-Library.AList"
begin

section \<open>JavaScript values\<close>

text \<open>
  The gateway (\<^verbatim>\<open>mcp-gateway.ts\<close>) handles JSON bodies, thrown values and HTTP header
  strings. A JavaScript value is modelled as a tree; an object is an association list of
  the properties that a property read and the operator \<^verbatim>\<open>in\<close> find on it (its own,
  and for an exception object those of its class), in insertion order. Header strings are sequences of 8-bit
  characters (Node decodes header bytes as Latin-1).
\<close>

datatype jsval =
    JUndefined
  | JNull
  | JBool bool
  | JNum int
  | JStr string
  | JArr "jsval list"
  | JObj "(string \<times> jsval) list"

text \<open>
  A thrown value: the value itself, and whether \<^verbatim>\<open>error instanceof Error\<close> holds for it.
\<close>

datatype thrown = Thrown (thrown_value: jsval) (instanceof_Error: bool)

text \<open>\<^verbatim>\<open>new Error(msg)\<close>.\<close>

definition js_Error :: "string \<Rightarrow> thrown" where
  "js_Error msg = Thrown (JObj [(''message'', JStr msg)]) True"

text \<open>\<^verbatim>\<open>error.message\<close> of a thrown value (undefined when there is no such property).\<close>

definition error_message :: "thrown \<Rightarrow> jsval" where
  "error_message e =
     (case thrown_value e of
        JObj fs \<Rightarrow> (case map_of fs ''message'' of Some m \<Rightarrow> m | None \<Rightarrow> JUndefined)
      | _ \<Rightarrow> JUndefined)"

text \<open>\<^verbatim>\<open>error instanceof Error ? error.message : "Unknown error"\<close>.\<close>

definition error_data :: "thrown \<Rightarrow> jsval" where
  "error_data e = (if instanceof_Error e then error_message e else JStr ''Unknown error'')"

text \<open>
  \<^verbatim>\<open>typeof error === "object" && error !== null && "code" in error\<close>: primitives and
  null fail the first two tests; an array has no \<^verbatim>\<open>code\<close> property.
\<close>

definition has_code :: "thrown \<Rightarrow> bool" where
  "has_code e =
     (case thrown_value e of
        JObj fs \<Rightarrow> map_of fs ''code'' \<noteq> None
      | _ \<Rightarrow> False)"

text \<open>
  \<^verbatim>\<open>JSON.stringify(v)\<close> is a builtin: the text it produces for a defined value is the
  parameter \<open>ser\<close>; for \<^verbatim>\<open>undefined\<close> it returns \<^verbatim>\<open>undefined\<close>, not a string.
\<close>

definition JSON_stringify :: "(jsval \<Rightarrow> string) \<Rightarrow> jsval \<Rightarrow> string option" where
  "JSON_stringify ser v = (case v of JUndefined \<Rightarrow> None | _ \<Rightarrow> Some (ser v))"

definition Array_isArray :: "jsval \<Rightarrow> bool" where
  "Array_isArray v = (case v of JArr _ \<Rightarrow> True | _ \<Rightarrow> False)"

section \<open>The bearer token: \<^verbatim>\<open>extractAgentIdFromAuth\<close>\<close>

text \<open>
  The regular expression \<^verbatim>\<open>/^Bearer\s+(.+)$/i\<close> over 8-bit characters.
  \<^verbatim>\<open>\s\<close> matches TAB, LF, VT, FF, CR, SPACE and NBSP; \<^verbatim>\<open>.\<close> matches everything but
  the line terminators LF and CR; under the flag \<^verbatim>\<open>i\<close> two characters match when their
  upper-case forms are equal, which for the letters of \<^verbatim>\<open>Bearer\<close> means the ASCII
  letter in either case.
\<close>

definition is_space :: "char \<Rightarrow> bool" where
  "is_space c = (of_char c \<in> {9, 10, 11, 12, 13, 32, 160 :: nat})"

definition is_line_terminator :: "char \<Rightarrow> bool" where
  "is_line_terminator c = (of_char c \<in> {10, 13 :: nat})"

definition canonicalize :: "char \<Rightarrow> char" where
  "canonicalize c =
     (case map_of (zip ''abcdefghijklmnopqrstuvwxyz'' ''ABCDEFGHIJKLMNOPQRSTUVWXYZ'') c of
        Some u \<Rightarrow> u
      | None \<Rightarrow> c)"

text \<open>\<^verbatim>\<open>(.+)$\<close>: the rest of the input, not empty, with no line terminator.\<close>

definition dot_plus_end :: "string \<Rightarrow> bool" where
  "dot_plus_end t = (t \<noteq> [] \<and> list_all (\<lambda>c. \<not> is_line_terminator c) t)"

text \<open>
  \<^verbatim>\<open>\s+(.+)$\<close> with the engine's backtracking: \<^verbatim>\<open>\s+\<close> is greedy, so after one white
  space character it first tries to take more, and only when that fails does it hand
  the rest to \<^verbatim>\<open>(.+)$\<close>. The result is the capture group.
\<close>

fun space_plus_then :: "string \<Rightarrow> string option" where
  "space_plus_then [] = None"
| "space_plus_then (c # cs) =
     (if is_space c
      then (case space_plus_then cs of
              Some t \<Rightarrow> Some t
            | None \<Rightarrow> if dot_plus_end cs then Some cs else None)
      else None)"

text \<open>\<^verbatim>\<open>authHeader.match(/^Bearer\s+(.+)$/i)\<close>, giving \<^verbatim>\<open>match[1]\<close>.\<close>

definition bearer_match :: "string \<Rightarrow> string option" where
  "bearer_match h =
     (if map canonicalize (take 6 h) = map canonicalize ''Bearer''
      then space_plus_then (drop 6 h)
      else None)"

text \<open>
  \<^verbatim>\<open>UuidIdSchema\<close> is declared in another module (\<^verbatim>\<open>@/types\<close>): its
  \<^verbatim>\<open>parse\<close> is the parameter \<open>parse\<close> (\<open>None\<close> when it throws).
\<close>

definition extractAgentIdFromAuth ::
  "(string \<Rightarrow> string option) \<Rightarrow> string option \<Rightarrow> string option" where
  "extractAgentIdFromAuth parse authHeader =
     (case authHeader of
        None \<Rightarrow> None
      | Some h \<Rightarrow>
          if h = [] then None
          else (case bearer_match h of
                  None \<Rightarrow> None
                | Some token \<Rightarrow> parse token))"

text \<open>
  What the pattern says, without the engine: the header splits into a scheme that is
  \<^verbatim>\<open>Bearer\<close> up to case, a non-empty run of white space, and a non-empty token free of
  line terminators. The captured token is the shortest one of all such splits.
\<close>

definition ws_split :: "string \<Rightarrow> string \<Rightarrow> bool" where
  "ws_split s t = (\<exists>ws. s = ws @ t \<and> ws \<noteq> [] \<and> list_all is_space ws \<and> dot_plus_end t)"

definition bearer_split :: "string \<Rightarrow> string \<Rightarrow> bool" where
  "bearer_split h t =
     (\<exists>sch rest. h = sch @ rest \<and> map canonicalize sch = map canonicalize ''Bearer''
        \<and> ws_split rest t)"

definition bearer_token :: "string \<Rightarrow> string \<Rightarrow> bool" where
  "bearer_token h t =
     (bearer_split h t \<and> (\<forall>t'. bearer_split h t' \<longrightarrow> length t \<le> length t'))"

section \<open>The tool call handler of \<^verbatim>\<open>createAgentServer\<close>\<close>

text \<open>
  \<^verbatim>\<open>CommonToolCall\<close> (\<^verbatim>\<open>id\<close>, \<^verbatim>\<open>name\<close>, \<^verbatim>\<open>arguments\<close>) and the fields of
  \<^verbatim>\<open>CommonToolResult\<close> that the handler reads (\<^verbatim>\<open>content\<close>, \<^verbatim>\<open>isError\<close>,
  \<^verbatim>\<open>error\<close>).
\<close>

record CommonToolCall =
  call_id :: string
  call_name :: string
  call_arguments :: "(string \<times> jsval) list"

record CommonToolResult =
  content :: jsval
  isError :: bool
  error :: "string option"

text \<open>
  The separator of fully qualified tool names, \<^verbatim>\<open>{mcpServerName}__{toolName}\<close>.
\<close>

definition MCP_SERVER_TOOL_NAME_SEPARATOR :: string where
  "MCP_SERVER_TOOL_NAME_SEPARATOR = ''__''"

text \<open>
  What the handler's closure and imports provide. \<^verbatim>\<open>MCP_SERVER_NAME\<close> and
  \<^verbatim>\<open>executeArchestraTool\<close> come from \<^verbatim>\<open>@/archestra-mcp-server\<close> and
  \<^verbatim>\<open>mcpClient\<close> from \<^verbatim>\<open>@/clients/mcp-client\<close>, other modules: they are
  parameters. A call either returns or throws. \<open>toolCallId\<close> is the identifier built
  from the clock and \<^verbatim>\<open>Math.random()\<close>; \<open>typeErrorMessage\<close> is the engine's message
  for reading \<^verbatim>\<open>.length\<close> of \<^verbatim>\<open>undefined\<close>.
\<close>

record 'ag tool_env =
  MCP_SERVER_NAME :: string
  executeArchestraTool :: "string \<Rightarrow> (string \<times> jsval) list option \<Rightarrow> 'ag \<Rightarrow> thrown + jsval"
  executeToolCall :: "CommonToolCall \<Rightarrow> string \<Rightarrow> thrown + CommonToolResult"
  toolCallId :: string
  stringify_text :: "jsval \<Rightarrow> string"
  typeErrorMessage :: string

text \<open>The calls the handler makes to its collaborators, in program order.\<close>

datatype 'ag tool_event =
    ArchestraExec string "(string \<times> jsval) list option" 'ag
  | McpClientExec CommonToolCall string

definition startsWith :: "string \<Rightarrow> string \<Rightarrow> bool" where
  "startsWith s p = (take (length p) s = p)"

text \<open>
  The \<^verbatim>\<open>catch\<close> block of the handler: a thrown object that carries \<^verbatim>\<open>code\<close> is
  thrown again as it is, anything else is wrapped.
\<close>

definition tool_catch :: "thrown \<Rightarrow> thrown" where
  "tool_catch e =
     (if has_code e then e
      else Thrown (JObj [(''code'', JNum (- 32603)),
                         (''message'', JStr ''Tool execution failed''),
                         (''data'', error_data e)]) False)"

text \<open>
  The content of the returned result:
  \<^verbatim>\<open>Array.isArray(c) ? c : [{ type: "text", text: JSON.stringify(c) }]\<close>.
\<close>

definition normalizeContent :: "(jsval \<Rightarrow> string) \<Rightarrow> jsval \<Rightarrow> jsval" where
  "normalizeContent ser c =
     (if Array_isArray c then c
      else JArr [JObj [(''type'', JStr ''text''),
                       (''text'', (case JSON_stringify ser c of
                                     Some t \<Rightarrow> JStr t
                                   | None \<Rightarrow> JUndefined))]])"

text \<open>
  The argument \<^verbatim>\<open>resultContentLength\<close> of the log call before the return: it reads
  \<^verbatim>\<open>.length\<close> of \<^verbatim>\<open>JSON.stringify(result.content)\<close>, which throws a
  \<^verbatim>\<open>TypeError\<close> when that is \<^verbatim>\<open>undefined\<close>.
\<close>

definition resultContentLength :: "'ag tool_env \<Rightarrow> jsval \<Rightarrow> thrown + nat" where
  "resultContentLength env c =
     (if Array_isArray c then
        (case JSON_stringify (stringify_text env) c of
           Some t \<Rightarrow> Inr (length t)
         | None \<Rightarrow> Inl (js_Error (typeErrorMessage env)))
      else (case c of
              JStr t \<Rightarrow> Inr (length t)
            | _ \<Rightarrow> (case JSON_stringify (stringify_text env) c of
                      Some t \<Rightarrow> Inr (length t)
                    | None \<Rightarrow> Inl (js_Error (typeErrorMessage env)))))"

text \<open>
  The handler registered for \<^verbatim>\<open>CallToolRequestSchema\<close>, with the agent identifier and
  the agent of the enclosing \<^verbatim>\<open>createAgentServer\<close>. It returns the response or the
  thrown value, and the collaborator calls it made.
\<close>

definition callToolHandler ::
  "'ag tool_env \<Rightarrow> string \<Rightarrow> 'ag \<Rightarrow> string \<Rightarrow> (string \<times> jsval) list option
     \<Rightarrow> (thrown + jsval) \<times> 'ag tool_event list" where
  "callToolHandler env agentId agent name args =
     (let archestraToolPrefix = MCP_SERVER_NAME env @ MCP_SERVER_TOOL_NAME_SEPARATOR in
      if startsWith name archestraToolPrefix then
        (case executeArchestraTool env name args agent of
           Inl e \<Rightarrow> (Inl (tool_catch e), [ArchestraExec name args agent])
         | Inr archestraResponse \<Rightarrow> (Inr archestraResponse, [ArchestraExec name args agent]))
      else
        (let toolCall = \<lparr> call_id = toolCallId env, call_name = name,
                          call_arguments = (case args of Some a \<Rightarrow> a | None \<Rightarrow> []) \<rparr> in
         case executeToolCall env toolCall agentId of
           Inl e \<Rightarrow> (Inl (tool_catch e), [McpClientExec toolCall agentId])
         | Inr result \<Rightarrow>
             if isError result then
               (Inl (tool_catch
                  (Thrown (JObj [(''code'', JNum (- 32603)),
                                 (''message'',
                                    JStr (case error result of
                                            None \<Rightarrow> ''Tool execution failed''
                                          | Some m \<Rightarrow>
                                              if m = [] then ''Tool execution failed'' else m))])
                     False)),
                [McpClientExec toolCall agentId])
             else
               (case resultContentLength env (content result) of
                  Inl e \<Rightarrow> (Inl (tool_catch e), [McpClientExec toolCall agentId])
                | Inr _ \<Rightarrow>
                    (Inr (JObj [(''content'',
                                   normalizeContent (stringify_text env) (content result)),
                                (''isError'', JBool False)]),
                     [McpClientExec toolCall agentId]))))"

section \<open>Sessions\<close>

text \<open>
  A protocol server and a transport are objects; each \<^verbatim>\<open>new\<close> yields the next object
  identity. \<^verbatim>\<open>SessionData\<close> holds the two objects and the time of the last access.
\<close>

type_synonym obj = nat

record SessionData =
  server :: obj
  transport :: obj
  lastAccess :: int

text \<open>
  \<^verbatim>\<open>activeSessions\<close> is a JavaScript \<^verbatim>\<open>Map\<close>: its entries in insertion order.
  \<^verbatim>\<open>set\<close> replaces the value of a present key in place and appends a new key
  (\<open>AList.update\<close>), \<^verbatim>\<open>delete\<close> removes the key (\<open>AList.delete\<close>), \<^verbatim>\<open>get\<close> and
  \<^verbatim>\<open>has\<close> look the key up (\<open>map_of\<close>).
\<close>

record gateway_state =
  activeSessions :: "(string \<times> SessionData) list"
  nextObj :: obj

definition SESSION_TIMEOUT_MS :: int where
  "SESSION_TIMEOUT_MS = 30 * 60 * 1000"

text \<open>The period given to \<^verbatim>\<open>setInterval\<close> for \<^verbatim>\<open>cleanupExpiredSessions\<close>.\<close>

definition CLEANUP_INTERVAL_MS :: int where
  "CLEANUP_INTERVAL_MS = 5 * 60 * 1000"

text \<open>The first loop of \<^verbatim>\<open>cleanupExpiredSessions\<close> collects the expired identifiers.\<close>

fun expiredSessionIds :: "int \<Rightarrow> (string \<times> SessionData) list \<Rightarrow> string list" where
  "expiredSessionIds now [] = []"
| "expiredSessionIds now ((sessionId, sessionData) # rest) =
     (if now - lastAccess sessionData > SESSION_TIMEOUT_MS
      then sessionId # expiredSessionIds now rest
      else expiredSessionIds now rest)"

text \<open>The second loop deletes them one by one.\<close>

fun delete_sessions ::
  "string list \<Rightarrow> (string \<times> SessionData) list \<Rightarrow> (string \<times> SessionData) list" where
  "delete_sessions [] m = m"
| "delete_sessions (sessionId # rest) m = delete_sessions rest (AList.delete sessionId m)"

text \<open>\<open>now\<close> is the value of \<^verbatim>\<open>Date.now()\<close>.\<close>

definition cleanupExpiredSessions :: "int \<Rightarrow> gateway_state \<Rightarrow> gateway_state" where
  "cleanupExpiredSessions now s =
     s\<lparr>activeSessions :=
         delete_sessions (expiredSessionIds now (activeSessions s)) (activeSessions s)\<rparr>"

section \<open>The routes\<close>

text \<open>
  What a handler reads of a request: the \<^verbatim>\<open>Authorization\<close> header, the
  \<^verbatim>\<open>mcp-session-id\<close> header and the JSON body (an object, by the route's schema).
\<close>

record request =
  authorization :: "string option"
  mcp_session_id :: "string option"
  body :: "(string \<times> jsval) list"

text \<open>
  The answer: a status and a JSON payload sent by the route; or, once the reply is
  hijacked, whatever the transport wrote to the raw response; or nothing further.
\<close>

datatype 'raw http_response =
    Reply nat jsval
  | Raw 'raw
  | NoFurtherReply

text \<open>
  What lies outside the file. \<open>Date_now\<close> is the clock at the access,
  \<open>Date_now_text\<close> its decimal text inside a generated identifier;
  \<open>AgentModel_findById\<close>, \<open>server_connect\<close> and \<open>transport_handleRequest\<close> are the
  model and SDK calls, which return or throw; \<open>reply_sent\<close> is \<^verbatim>\<open>reply.sent\<close> as the
  \<^verbatim>\<open>catch\<close> block reads it after the reply was hijacked.
\<close>

record ('ag, 'raw) gateway_env =
  UuidIdSchema_parse :: "string \<Rightarrow> string option"
  api_version :: string
  Date_now :: int
  Date_now_text :: string
  randomUUID :: string
  AgentModel_findById :: "string \<Rightarrow> 'ag option"
  server_connect :: "obj \<Rightarrow> obj \<Rightarrow> thrown option"
  transport_handleRequest :: "obj \<Rightarrow> (string \<times> jsval) list \<Rightarrow> thrown + 'raw"
  reply_sent :: bool

text \<open>
  The accesses to the session map and the calls to collaborators that the POST route
  makes, in program order.
\<close>

datatype post_event =
    MapHas string
  | MapGet string
  | MapKeys
  | MapSet string SessionData
  | SetLastAccess string int
  | CreateAgentServer string
  | CreateTransport string
  | ServerConnect obj obj
  | Hijack
  | HandleRequest obj
  | AuditCreate string

definition unauthorized_get :: jsval where
  "unauthorized_get =
     JObj [(''error'', JStr ''Unauthorized''),
           (''message'',
              JStr ''Missing or invalid Authorization header. Expected: Bearer <agent-id>'')]"

definition unauthorized_rpc :: jsval where
  "unauthorized_rpc =
     JObj [(''jsonrpc'', JStr ''2.0''),
           (''error'',
              JObj [(''code'', JNum (- 32000)),
                    (''message'',
                       JStr (''Unauthorized: Missing or invalid Authorization header. ''
                             @ ''Expected: Bearer <agent-id>''))]),
           (''id'', JNull)]"

definition invalid_session_rpc :: jsval where
  "invalid_session_rpc =
     JObj [(''jsonrpc'', JStr ''2.0''),
           (''error'',
              JObj [(''code'', JNum (- 32000)),
                    (''message'', JStr ''Bad Request: Invalid or expired session'')]),
           (''id'', JNull)]"

definition internal_error_rpc :: "thrown \<Rightarrow> jsval" where
  "internal_error_rpc e =
     JObj [(''jsonrpc'', JStr ''2.0''),
           (''error'',
              JObj [(''code'', JNum (- 32603)),
                    (''message'', JStr ''Internal server error''),
                    (''data'', error_data e)]),
           (''id'', JNull)]"

text \<open>The GET route: discovery.\<close>

definition get_handler :: "('ag, 'raw) gateway_env \<Rightarrow> request \<Rightarrow> 'raw http_response" where
  "get_handler env req =
     (case extractAgentIdFromAuth (UuidIdSchema_parse env) (authorization req) of
        None \<Rightarrow> Reply 401 unauthorized_get
      | Some agentId \<Rightarrow>
          Reply 200
            (JObj [(''name'', JStr (''archestra-agent-'' @ agentId)),
                   (''version'', JStr (api_version env)),
                   (''agentId'', JStr agentId),
                   (''transport'', JStr ''http''),
                   (''capabilities'', JObj [(''tools'', JBool True)])]))"

text \<open>
  \<^verbatim>\<open>createAgentServer\<close>: a new server object, then the agent lookup, which throws when
  there is no such agent. \<^verbatim>\<open>createTransport\<close>: a new transport object.
\<close>

definition createAgentServer ::
  "('ag, 'raw) gateway_env \<Rightarrow> string \<Rightarrow> gateway_state \<Rightarrow> (thrown + obj) \<times> gateway_state" where
  "createAgentServer env agentId s =
     (let srv = nextObj s; s1 = s\<lparr>nextObj := Suc (nextObj s)\<rparr> in
      case AgentModel_findById env agentId of
        None \<Rightarrow> (Inl (js_Error (''Agent not found: '' @ agentId)), s1)
      | Some agent \<Rightarrow> (Inr srv, s1))"

definition createTransport :: "gateway_state \<Rightarrow> obj \<times> gateway_state" where
  "createTransport s = (nextObj s, s\<lparr>nextObj := Suc (nextObj s)\<rparr>)"

text \<open>
  The outer \<^verbatim>\<open>catch\<close> of the POST route: a 500 envelope unless the reply was already
  sent. Before \<^verbatim>\<open>reply.hijack()\<close> nothing has been sent.
\<close>

definition post_catch :: "('ag, 'raw) gateway_env \<Rightarrow> bool \<Rightarrow> thrown \<Rightarrow> 'raw http_response" where
  "post_catch env hijacked e =
     (if \<not> (hijacked \<and> reply_sent env) then Reply 500 (internal_error_rpc e)
      else NoFurtherReply)"

text \<open>
  From \<^verbatim>\<open>reply.hijack()\<close> on: the body goes to the transport's
  \<^verbatim>\<open>handleRequest\<close>; after it returns, an initialize request is written to the audit log
  (a failure of that write is caught and logged, nothing else).
\<close>

definition hand_off ::
  "('ag, 'raw) gateway_env \<Rightarrow> request \<Rightarrow> bool \<Rightarrow> obj \<Rightarrow> gateway_state \<Rightarrow> post_event list
     \<Rightarrow> 'raw http_response \<times> gateway_state \<times> post_event list" where
  "hand_off env req isInitialize tr s evs =
     (case transport_handleRequest env tr (body req) of
        Inl e \<Rightarrow> (post_catch env True e, s, evs @ [Hijack, HandleRequest tr])
      | Inr raw \<Rightarrow>
          (Raw raw, s,
           evs @ [Hijack, HandleRequest tr]
               @ (if isInitialize then [AuditCreate ''initialize''] else [])))"

text \<open>The branch \<^verbatim>\<open>sessionId && activeSessions.has(sessionId)\<close>.\<close>

definition existing_session ::
  "('ag, 'raw) gateway_env \<Rightarrow> request \<Rightarrow> bool \<Rightarrow> string \<Rightarrow> gateway_state
     \<Rightarrow> 'raw http_response \<times> gateway_state \<times> post_event list" where
  "existing_session env req isInitialize sessionId s =
     (case map_of (activeSessions s) sessionId of
        None \<Rightarrow>
          (post_catch env False (js_Error ''Session data not found''), s,
           [MapHas sessionId, MapGet sessionId])
      | Some sessionData \<Rightarrow>
          (let s1 = s\<lparr>activeSessions :=
                       AList.update sessionId (sessionData\<lparr>lastAccess := Date_now env\<rparr>)
                         (activeSessions s)\<rparr>
           in hand_off env req isInitialize (transport sessionData) s1
                [MapHas sessionId, MapGet sessionId, SetLastAccess sessionId (Date_now env)]))"

text \<open>
  \<^verbatim>\<open>sessionId || `session-${Date.now()}-${randomUUID()}`\<close>, where \<open>sessionId\<close> is
  the header when it is a non-empty string.
\<close>

definition effectiveSessionId :: "('ag, 'raw) gateway_env \<Rightarrow> string option \<Rightarrow> string" where
  "effectiveSessionId env sessionId =
     (case sessionId of
        Some sid \<Rightarrow> sid
      | None \<Rightarrow> ''session-'' @ Date_now_text env @ ''-'' @ randomUUID env)"

text \<open>
  The branch \<^verbatim>\<open>else if (isInitialize)\<close>; \<open>evs\<close> are the map accesses made so far.
\<close>

definition new_session ::
  "('ag, 'raw) gateway_env \<Rightarrow> request \<Rightarrow> string \<Rightarrow> string option \<Rightarrow> gateway_state
     \<Rightarrow> post_event list \<Rightarrow> 'raw http_response \<times> gateway_state \<times> post_event list" where
  "new_session env req agentId sessionId s evs =
     (let eff = effectiveSessionId env sessionId;
          evs1 = evs @ [MapHas eff, MapKeys, CreateAgentServer agentId]
      in case createAgentServer env agentId s of
           (Inl e, s1) \<Rightarrow> (post_catch env False e, s1, evs1)
         | (Inr srv, s1) \<Rightarrow>
             (case createTransport s1 of
                (tr, s2) \<Rightarrow>
                  (let evs2 = evs1 @ [CreateTransport eff, ServerConnect srv tr]
                   in case server_connect env srv tr of
                        Some e \<Rightarrow> (post_catch env False e, s2, evs2)
                      | None \<Rightarrow>
                          (let sessionData =
                                 \<lparr> server = srv, transport = tr, lastAccess = Date_now env \<rparr>;
                               s3 = s2\<lparr>activeSessions :=
                                         AList.update eff sessionData
                                           (activeSessions s2)\<rparr>
                           in hand_off env req True tr s3
                                (evs2 @ [MapSet eff sessionData])))))"

text \<open>A header value counts as a session identifier when it is a non-empty string.\<close>

definition truthy :: "string option \<Rightarrow> string option" where
  "truthy sessionId =
     (case sessionId of None \<Rightarrow> None | Some sid \<Rightarrow> if sid = [] then None else Some sid)"

text \<open>The POST route.\<close>

definition post_handler ::
  "('ag, 'raw) gateway_env \<Rightarrow> request \<Rightarrow> gateway_state
     \<Rightarrow> 'raw http_response \<times> gateway_state \<times> post_event list" where
  "post_handler env req s =
     (case extractAgentIdFromAuth (UuidIdSchema_parse env) (authorization req) of
        None \<Rightarrow> (Reply 401 unauthorized_rpc, s, [])
      | Some agentId \<Rightarrow>
          (let sessionId = truthy (mcp_session_id req);
               isInitialize = (map_of (body req) ''method'' = Some (JStr ''initialize''))
           in case sessionId of
                None \<Rightarrow>
                  if isInitialize then new_session env req agentId None s []
                  else (Reply 400 invalid_session_rpc, s, [])
              | Some sid \<Rightarrow>
                  if map_of (activeSessions s) sid \<noteq> None
                  then existing_session env req isInitialize sid s
                  else if isInitialize
                       then new_session env req agentId (Some sid) s [MapHas sid]
                       else (Reply 400 invalid_session_rpc, s, [MapHas sid])))"

text \<open>
  A trace in which the session \<open>d\<close> is stored under \<open>k\<close> and the request is handed off
  right after: the \<^verbatim>\<open>activeSessions.set\<close> is followed at once by \<^verbatim>\<open>reply.hijack()\<close>
  and \<^verbatim>\<open>handleRequest\<close> on the transport of \<open>d\<close>, and the trace has no other store
  and no other hand-off, neither before nor after.
\<close>

definition stored_then_handed :: "string \<Rightarrow> SessionData \<Rightarrow> post_event list \<Rightarrow> bool" where
  "stored_then_handed k d evs =
     (\<exists>pre post.
        evs = pre @ [MapSet k d, Hijack, HandleRequest (transport d)] @ post \<and>
        (\<forall>tr. HandleRequest tr \<notin> set pre \<and> HandleRequest tr \<notin> set post) \<and>
        (\<forall>k' d'. MapSet k' d' \<notin> set pre \<and> MapSet k' d' \<notin> set post))"

text \<open>
  Concrete collaborators for the evaluations below: a parse that accepts one agent
  identifier, an agent store that knows it, a transport that answers.
\<close>

definition example_agent :: string where
  "example_agent = ''123e4567-e89b-42d3-a456-426614174000''"

definition example_env :: "(unit, string) gateway_env" where
  "example_env =
     \<lparr> UuidIdSchema_parse = (\<lambda>t. if t = example_agent then Some t else None),
       api_version = ''1.0.0'',
       Date_now = 2000000,
       Date_now_text = ''2000000'',
       randomUUID = ''0b1c2d3e-0000-4000-8000-000000000001'',
       AgentModel_findById = (\<lambda>a. if a = example_agent then Some () else None),
       server_connect = (\<lambda>srv tr. None),
       transport_handleRequest = (\<lambda>tr b. Inr ''ok''),
       reply_sent = True \<rparr>"

definition example_tool_env :: "unit tool_env" where
  "example_tool_env =
     \<lparr> MCP_SERVER_NAME = ''archestra'',
       executeArchestraTool =
         (\<lambda>name args agent.
            Inr (JObj [(''content'', JArr [JObj [(''type'', JStr ''text''),
                                                 (''text'', JStr ''agent-1'')]]),
                       (''isError'', JBool False)])),
       executeToolCall =
         (\<lambda>call agentId.
            if call_name call = ''github__fail''
            then Inr \<lparr> content = JNull, isError = True, error = Some ''boom'' \<rparr>
            else Inr \<lparr> content = JNum 42, isError = False, error = None \<rparr>),
       toolCallId = ''mcp-call-2000000-k3j9x1a'',
       stringify_text = (\<lambda>v. ''42''),
       typeErrorMessage = ''Cannot read properties of undefined'' \<rparr>"

definition example_auth :: string where
  "example_auth = ''Bearer 123e4567-e89b-42d3-a456-426614174000''"

definition example_session :: string where
  "example_session = ''session-2000000-0b1c2d3e-0000-4000-8000-000000000001''"

definition example_initialize :: request where
  "example_initialize =
     \<lparr> authorization = Some example_auth,
       mcp_session_id = None,
       body = [(''jsonrpc'', JStr ''2.0''), (''method'', JStr ''initialize''),
               (''id'', JNum 1)] \<rparr>"

definition example_tools_list :: request where
  "example_tools_list =
     \<lparr> authorization = Some example_auth,
       mcp_session_id = Some example_session,
       body = [(''jsonrpc'', JStr ''2.0''), (''method'', JStr ''tools/list''),
               (''params'', JObj []), (''id'', JNum 2)] \<rparr>"

definition example_live :: gateway_state where
  "example_live =
     \<lparr> activeSessions =
         [(example_session, \<lparr> server = 0, transport = 1, lastAccess = 1000000 \<rparr>)],
       nextObj = 2 \<rparr>"

definition example_idle :: gateway_state where
  "example_idle =
     \<lparr> activeSessions =
         [(''session-a'', \<lparr> server = 0, transport = 1, lastAccess = 0 \<rparr>),
          (''session-b'', \<lparr> server = 2, transport = 3, lastAccess = 1000000 \<rparr>)],
       nextObj = 4 \<rparr>"

section \<open>The Anthropic response adapter\<close>

text \<open>
  Modelled from the spec: \<^verbatim>\<open>AnthropicResponseAdapter.getToolCalls\<close>
  (\<^verbatim>\<open>routes/proxy/adapterV2/anthropic.ts\<close>) is missing from the sources, only its
  test \<^verbatim>\<open>anthropic.test.ts\<close> is there. By the specification the adapter scans the content blocks of the response for
  tool invocation blocks and maps each one to \<^verbatim>\<open>{id, name, arguments}\<close>, keeping the
  order of the blocks; a block without input gives the empty mapping; a response without
  such blocks gives the empty sequence.
\<close>

datatype content_block =
    Text_block string
  | Tool_use (block_id: string) (block_name: string)
      (block_input: "(string \<times> jsval) list option")
  | Other_block string

definition is_tool_use :: "content_block \<Rightarrow> bool" where
  "is_tool_use b = (case b of Tool_use _ _ _ \<Rightarrow> True | _ \<Rightarrow> False)"

fun getToolCalls :: "content_block list \<Rightarrow> CommonToolCall list" where
  "getToolCalls [] = []"
| "getToolCalls (Tool_use i n inp # blocks) =
     \<lparr> call_id = i, call_name = n,
       call_arguments = (case inp of None \<Rightarrow> [] | Some a \<Rightarrow> a) \<rparr> # getToolCalls blocks"
| "getToolCalls (_ # blocks) = getToolCalls blocks"

section \<open>Lemmas on the bearer pattern\<close>

lemma ws_split_Nil: "\<not> ws_split [] t"
  by (simp add: ws_split_def)

lemma ws_split_Cons:
  "ws_split (c # cs) t \<longleftrightarrow> is_space c \<and> ((t = cs \<and> dot_plus_end cs) \<or> ws_split cs t)"
proof
  assume "ws_split (c # cs) t"
  then obtain ws where ws: "c # cs = ws @ t" "ws \<noteq> []" "list_all is_space ws" "dot_plus_end t"
    by (auto simp: ws_split_def)
  then obtain ws' where w: "ws = c # ws'" "cs = ws' @ t"
    by (cases ws) auto
  show "is_space c \<and> ((t = cs \<and> dot_plus_end cs) \<or> ws_split cs t)"
  proof (cases "ws' = []")
    case True
    with ws w show ?thesis by simp
  next
    case False
    with ws w have "ws_split cs t" by (auto simp: ws_split_def)
    with ws w show ?thesis by simp
  qed
next
  assume a: "is_space c \<and> ((t = cs \<and> dot_plus_end cs) \<or> ws_split cs t)"
  then consider "t = cs" "dot_plus_end cs" | "ws_split cs t" by blast
  then show "ws_split (c # cs) t"
  proof cases
    case 1
    with a have "c # cs = [c] @ t \<and> [c] \<noteq> [] \<and> list_all is_space [c] \<and> dot_plus_end t"
      by simp
    then show ?thesis unfolding ws_split_def by blast
  next
    case 2
    then obtain ws where "cs = ws @ t" "ws \<noteq> []" "list_all is_space ws" "dot_plus_end t"
      by (auto simp: ws_split_def)
    with a have
      "c # cs = (c # ws) @ t \<and> c # ws \<noteq> [] \<and> list_all is_space (c # ws) \<and> dot_plus_end t"
      by simp
    then show ?thesis unfolding ws_split_def by blast
  qed
qed

lemma ws_split_length: "ws_split s t \<Longrightarrow> length t < length s"
  by (auto simp: ws_split_def)

lemma ws_split_same_length: "ws_split s t \<Longrightarrow> ws_split s t' \<Longrightarrow> length t = length t' \<Longrightarrow> t = t'"
  by (auto simp: ws_split_def)

lemma space_plus_then_None: "space_plus_then s = None \<Longrightarrow> \<not> ws_split s t"
  by (induction s) (auto simp: ws_split_Nil ws_split_Cons split: if_splits option.splits)

lemma space_plus_then_Some:
  "space_plus_then s = Some t \<Longrightarrow>
     ws_split s t \<and> (\<forall>t'. ws_split s t' \<longrightarrow> length t \<le> length t')"
proof (induction s)
  case Nil
  then show ?case by simp
next
  case (Cons c cs)
  show ?case
  proof (cases "space_plus_then cs")
    case None
    with Cons.prems have "is_space c" "t = cs" "dot_plus_end cs"
      by (auto split: if_splits)
    moreover have "\<And>t'. \<not> ws_split cs t'" using None by (rule space_plus_then_None)
    ultimately show ?thesis by (simp add: ws_split_Cons)
  next
    case (Some t0)
    with Cons.prems have c: "is_space c" "t = t0" by (auto split: if_splits)
    from Cons.IH Some c have ih:
      "ws_split cs t" "\<forall>t'. ws_split cs t' \<longrightarrow> length t \<le> length t'"
      by simp_all
    from ih(1) have "length t < length cs" by (rule ws_split_length)
    with c ih show ?thesis by (auto simp: ws_split_Cons)
  qed
qed

lemma space_plus_then_iff:
  "space_plus_then s = Some t \<longleftrightarrow>
     ws_split s t \<and> (\<forall>t'. ws_split s t' \<longrightarrow> length t \<le> length t')"
proof
  assume "space_plus_then s = Some t"
  then show "ws_split s t \<and> (\<forall>t'. ws_split s t' \<longrightarrow> length t \<le> length t')"
    by (rule space_plus_then_Some)
next
  assume r: "ws_split s t \<and> (\<forall>t'. ws_split s t' \<longrightarrow> length t \<le> length t')"
  then have "space_plus_then s \<noteq> None" using space_plus_then_None by blast
  then obtain t1 where t1: "space_plus_then s = Some t1" by auto
  from space_plus_then_Some [OF t1] r have "length t = length t1" "ws_split s t1"
    by (auto intro: le_antisym)
  with r have "t = t1" by (auto intro: ws_split_same_length)
  with t1 show "space_plus_then s = Some t" by simp
qed

lemma bearer_split_iff:
  "bearer_split h t \<longleftrightarrow>
     map canonicalize (take 6 h) = map canonicalize ''Bearer'' \<and> ws_split (drop 6 h) t"
proof
  assume "bearer_split h t"
  then obtain sch rest where s: "h = sch @ rest"
    "map canonicalize sch = map canonicalize ''Bearer''" "ws_split rest t"
    unfolding bearer_split_def by blast
  from s(2) have "length (map canonicalize sch) = length (map canonicalize ''Bearer'')"
    by simp
  then have "length sch = 6" by simp
  with s show "map canonicalize (take 6 h) = map canonicalize ''Bearer'' \<and> ws_split (drop 6 h) t"
    by simp
next
  assume a: "map canonicalize (take 6 h) = map canonicalize ''Bearer'' \<and> ws_split (drop 6 h) t"
  have "h = take 6 h @ drop 6 h" by simp
  with a show "bearer_split h t" unfolding bearer_split_def by blast
qed

lemma bearer_match_iff: "bearer_match h = Some t \<longleftrightarrow> bearer_token h t"
  by (simp add: bearer_match_def bearer_token_def bearer_split_iff space_plus_then_iff)

lemma bearer_token_nonempty: "bearer_token h t \<Longrightarrow> h \<noteq> []"
  by (auto simp: bearer_token_def bearer_split_def ws_split_def)

section \<open>Lemmas on the session map and the POST route\<close>

lemma delete_sessions_filter:
  "delete_sessions ids m = filter (\<lambda>(k, v). k \<notin> set ids) m"
proof (induction ids arbitrary: m)
  case Nil
  then show ?case by simp
next
  case (Cons a ids)
  have "delete_sessions (a # ids) m = filter (\<lambda>(k, v). k \<notin> set ids) (AList.delete a m)"
    using Cons.IH by simp
  also have "\<dots> = filter (\<lambda>(k, v). k \<notin> set (a # ids)) m"
    by (auto simp: AList.delete_eq intro: filter_cong)
  finally show ?case .
qed

lemma expiredSessionIds_filter:
  "expiredSessionIds now m = map fst (filter (\<lambda>(k, v). now - lastAccess v > SESSION_TIMEOUT_MS) m)"
  by (induction now m rule: expiredSessionIds.induct) auto

lemma sweep_filter:
  assumes "distinct (map fst m)"
  shows "delete_sessions (expiredSessionIds now m) m =
         filter (\<lambda>(k, v). \<not> now - lastAccess v > SESSION_TIMEOUT_MS) m"
proof -
  have "(k \<notin> set (expiredSessionIds now m)) = (\<not> now - lastAccess v > SESSION_TIMEOUT_MS)"
    if "(k, v) \<in> set m" for k v
  proof -
    have "k \<in> set (expiredSessionIds now m) \<longleftrightarrow>
          (\<exists>v'. (k, v') \<in> set m \<and> now - lastAccess v' > SESSION_TIMEOUT_MS)"
      by (force simp: expiredSessionIds_filter)
    also have "\<dots> \<longleftrightarrow> now - lastAccess v > SESSION_TIMEOUT_MS"
      using assms that by (auto dest: eq_key_imp_eq_value)
    finally show ?thesis by simp
  qed
  then show ?thesis
    unfolding delete_sessions_filter by (auto intro: filter_cong)
qed

lemma map_of_filter_distinct:
  "distinct (map fst m) \<Longrightarrow>
   map_of (filter (\<lambda>(k, v). P v) m) k =
     (case map_of m k of None \<Rightarrow> None | Some v \<Rightarrow> if P v then Some v else None)"
proof (induction m)
  case Nil
  then show ?case by simp
next
  case (Cons p m)
  obtain k' v' where p: "p = (k', v')" by (cases p)
  from Cons.prems p have "k' \<notin> fst ` set m" by simp
  then have "map_of m k' = None" by (simp add: map_of_eq_None_iff)
  with Cons p show ?case by (auto split: option.splits)
qed

lemma hand_off_snd: "fst (snd (hand_off env req i tr s evs)) = s"
  by (simp add: hand_off_def split: sum.splits)

lemma existing_session_state:
  "map_of (activeSessions s) sid = Some d \<Longrightarrow>
   fst (snd (existing_session env req i sid s)) =
     s\<lparr>activeSessions := AList.update sid (d\<lparr>lastAccess := Date_now env\<rparr>) (activeSessions s)\<rparr>"
  by (simp add: existing_session_def hand_off_snd)

lemma new_session_state:
  "activeSessions (fst (snd (new_session env req agentId sidopt s evs))) = activeSessions s \<or>
   activeSessions (fst (snd (new_session env req agentId sidopt s evs))) =
     AList.update (effectiveSessionId env sidopt)
       \<lparr> server = nextObj s, transport = Suc (nextObj s), lastAccess = Date_now env \<rparr>
       (activeSessions s)"
  by (simp add: new_session_def createAgentServer_def createTransport_def Let_def hand_off_snd
      split: option.splits)

lemma truthy_Some: "truthy x = Some sid \<Longrightarrow> sid \<noteq> [] \<and> x = Some sid"
  by (auto simp: truthy_def split: option.splits if_splits)

lemma effectiveSessionId_nonempty: "effectiveSessionId env (truthy x) \<noteq> []"
  by (cases "truthy x") (auto simp: effectiveSessionId_def dest: truthy_Some)

lemma post_handler_sessions:
  "activeSessions (fst (snd (post_handler env req s))) = activeSessions s \<or>
   (\<exists>d. activeSessions (fst (snd (post_handler env req s))) =
      AList.update (effectiveSessionId env (truthy (mcp_session_id req))) d (activeSessions s))"
proof (cases "extractAgentIdFromAuth (UuidIdSchema_parse env) (authorization req)")
  case None
  then show ?thesis by (simp add: post_handler_def)
next
  case (Some agentId)
  show ?thesis
  proof (cases "truthy (mcp_session_id req)")
    case None
    show ?thesis
      using new_session_state [of env req agentId None s "[]"]
      by (auto simp: post_handler_def Some None)
  next
    case sid: (Some sid)
    show ?thesis
    proof (cases "map_of (activeSessions s) sid")
      case None
      show ?thesis
        using new_session_state [of env req agentId "Some sid" s "[MapHas sid]"]
        by (auto simp: post_handler_def Some None sid)
    next
      case d: (Some d)
      have "activeSessions (fst (snd (post_handler env req s))) =
         AList.update sid (d\<lparr>lastAccess := Date_now env\<rparr>) (activeSessions s)"
        by (simp add: post_handler_def Some sid d existing_session_state [OF d])
      then show ?thesis by (auto simp: sid effectiveSessionId_def)
    qed
  qed
qed

lemma keys_update: "fst ` set (AList.update k d m) = insert k (fst ` set m)"
  by (simp add: AList.dom_update)

lemma post_handler_keys:
  "fst ` set (activeSessions s) \<subseteq> fst ` set (activeSessions (fst (snd (post_handler env req s))))"
proof -
  from post_handler_sessions [of env req s]
  consider "activeSessions (fst (snd (post_handler env req s))) = activeSessions s"
    | k d where "activeSessions (fst (snd (post_handler env req s))) = AList.update k d (activeSessions s)"
    by blast
  then show ?thesis
  proof cases
    case 1
    then show ?thesis by simp
  next
    case 2
    then show ?thesis by (simp only: keys_update) blast
  qed
qed

lemma post_handler_distinct:
  "distinct (map fst (activeSessions s)) \<Longrightarrow>
   distinct (map fst (activeSessions (fst (snd (post_handler env req s)))))"
  using post_handler_sessions [of env req s]
  by (auto simp: AList.distinct_update)

lemma post_handler_no_empty_key:
  assumes "[] \<notin> fst ` set (activeSessions s)"
  shows "[] \<notin> fst ` set (activeSessions (fst (snd (post_handler env req s))))"
proof -
  from post_handler_sessions [of env req s]
  consider "activeSessions (fst (snd (post_handler env req s))) = activeSessions s"
    | d where
      "activeSessions (fst (snd (post_handler env req s))) =
         AList.update (effectiveSessionId env (truthy (mcp_session_id req))) d (activeSessions s)"
    by blast
  then show ?thesis
  proof cases
    case 1
    with assms show ?thesis by simp
  next
    case 2
    with assms effectiveSessionId_nonempty [of env "mcp_session_id req"]
    show ?thesis by (simp only: keys_update) auto
  qed
qed

lemma cleanup_distinct:
  "distinct (map fst (activeSessions s)) \<Longrightarrow>
   distinct (map fst (activeSessions (cleanupExpiredSessions now s)))"
  by (simp add: cleanupExpiredSessions_def delete_sessions_filter distinct_map_filter)

lemma hand_off_events:
  "hand_off env req i tr s evs = (resp, s', evs') \<Longrightarrow>
   s' = s \<and> (\<exists>post. evs' = evs @ [Hijack, HandleRequest tr] @ post \<and>
              (post = [] \<or> post = [AuditCreate ''initialize'']))"
  by (auto simp: hand_off_def split: sum.splits if_splits)

lemma existing_session_events:
  assumes "existing_session env req i sid s = (resp, s', evs)"
  shows "MapSet k v \<notin> set evs"
proof (cases "map_of (activeSessions s) sid")
  case None
  with assms show ?thesis by (auto simp: existing_session_def)
next
  case (Some d)
  with assms obtain post where
    "evs = [MapHas sid, MapGet sid, SetLastAccess sid (Date_now env)] @ [Hijack, HandleRequest (transport d)] @ post"
    "post = [] \<or> post = [AuditCreate ''initialize'']"
    by (auto simp: existing_session_def dest!: hand_off_events)
  then show ?thesis by auto
qed

lemma example_auth_agent:
  "extractAgentIdFromAuth (UuidIdSchema_parse example_env) (Some example_auth) =
     Some example_agent"
  by (simp add: extractAgentIdFromAuth_def bearer_match_def canonicalize_def is_space_def
      dot_plus_end_def is_line_terminator_def example_env_def example_agent_def
      example_auth_def)

lemma post_handler_no_session_not_initialize:
  assumes "extractAgentIdFromAuth (UuidIdSchema_parse env) (authorization req) = Some agentId"
    and "map_of (body req) ''method'' \<noteq> Some (JStr ''initialize'')"
    and "\<forall>sid. truthy (mcp_session_id req) = Some sid \<longrightarrow> map_of (activeSessions s) sid = None"
  shows "post_handler env req s =
           (Reply 400 invalid_session_rpc, s,
            (case truthy (mcp_session_id req) of None \<Rightarrow> [] | Some sid \<Rightarrow> [MapHas sid]))"
  using assms by (simp add: post_handler_def split: option.splits)

lemma stored_then_handedI:
  "evs = pre @ [MapSet k d, Hijack, HandleRequest (transport d)] @ post \<Longrightarrow>
   \<forall>tr. HandleRequest tr \<notin> set pre \<Longrightarrow> \<forall>k' d'. MapSet k' d' \<notin> set pre \<Longrightarrow>
   post = [] \<or> post = [AuditCreate ''initialize''] \<Longrightarrow>
   stored_then_handed k d evs"
  unfolding stored_then_handed_def by (intro exI [of _ pre] exI [of _ post]) auto

lemma stored_then_handed_MapSet:
  "stored_then_handed k d evs \<Longrightarrow> MapSet k' d' \<in> set evs \<Longrightarrow> k' = k \<and> d' = d"
  unfolding stored_then_handed_def by auto

lemma stored_then_handed_HandleRequest:
  "stored_then_handed k d evs \<Longrightarrow> HandleRequest tr \<in> set evs \<Longrightarrow> tr = transport d"
  unfolding stored_then_handed_def by auto

lemma new_session_trace:
  assumes run: "new_session env req agentId sidopt s evs0 = (resp, s', evs)"
    and clean: "\<forall>tr. HandleRequest tr \<notin> set evs0" "\<forall>k v. MapSet k v \<notin> set evs0"
  shows "(AgentModel_findById env agentId \<noteq> None \<and>
          server_connect env (nextObj s) (Suc (nextObj s)) = None \<and>
          stored_then_handed (effectiveSessionId env sidopt)
            \<lparr> server = nextObj s, transport = Suc (nextObj s), lastAccess = Date_now env \<rparr> evs \<and>
          map_of (activeSessions s') (effectiveSessionId env sidopt) =
            Some \<lparr> server = nextObj s, transport = Suc (nextObj s), lastAccess = Date_now env \<rparr>)
         \<or>
         ((AgentModel_findById env agentId = None \<or>
           server_connect env (nextObj s) (Suc (nextObj s)) \<noteq> None) \<and>
          (\<forall>tr. HandleRequest tr \<notin> set evs) \<and> (\<forall>k v. MapSet k v \<notin> set evs))"
proof (cases "AgentModel_findById env agentId")
  case None
  with run have "evs = evs0 @ [MapHas (effectiveSessionId env sidopt), MapKeys, CreateAgentServer agentId]"
    by (auto simp: new_session_def createAgentServer_def Let_def)
  with None clean show ?thesis by auto
next
  case (Some agent)
  let ?eff = "effectiveSessionId env sidopt"
  let ?srv = "nextObj s"
  let ?tr = "Suc (nextObj s)"
  let ?pre = "evs0 @ [MapHas ?eff, MapKeys, CreateAgentServer agentId,
                      CreateTransport ?eff, ServerConnect ?srv ?tr]"
  show ?thesis
  proof (cases "server_connect env ?srv ?tr")
    case e: (Some e)
    with run Some have "evs = ?pre"
      by (auto simp: new_session_def createAgentServer_def createTransport_def Let_def)
    with e clean show ?thesis by auto
  next
    case None
    let ?d = "\<lparr> server = ?srv, transport = ?tr, lastAccess = Date_now env \<rparr>"
    let ?s3 = "s\<lparr>nextObj := Suc (Suc (nextObj s)),
                 activeSessions := AList.update ?eff ?d (activeSessions s)\<rparr>"
    from run Some None
    have h: "hand_off env req True ?tr ?s3 (?pre @ [MapSet ?eff ?d]) = (resp, s', evs)"
      by (simp add: new_session_def createAgentServer_def createTransport_def Let_def)
    from hand_off_events [OF h] obtain post where
      p: "s' = ?s3" "evs = (?pre @ [MapSet ?eff ?d]) @ [Hijack, HandleRequest ?tr] @ post"
         "post = [] \<or> post = [AuditCreate ''initialize'']"
      by blast
    have "evs = ?pre @ [MapSet ?eff ?d, Hijack, HandleRequest (transport ?d)] @ post"
      using p(2) by simp
    moreover have "\<forall>tr. HandleRequest tr \<notin> set ?pre" "\<forall>k' d'. MapSet k' d' \<notin> set ?pre"
      using clean by simp_all
    ultimately have "stored_then_handed ?eff ?d evs"
      using p(3) by (rule stored_then_handedI)
    moreover have "map_of (activeSessions s') ?eff = Some ?d"
      using p(1) by (simp add: AList.update_conv')
    ultimately show ?thesis using Some None by simp
  qed
qed

lemma post_handler_new_branch:
  assumes auth: "extractAgentIdFromAuth (UuidIdSchema_parse env) (authorization req) = Some agentId"
    and init: "map_of (body req) ''method'' = Some (JStr ''initialize'')"
    and nolive: "\<forall>sid. truthy (mcp_session_id req) = Some sid \<longrightarrow>
                   map_of (activeSessions s) sid = None"
  shows "post_handler env req s =
           new_session env req agentId (truthy (mcp_session_id req)) s
             (case truthy (mcp_session_id req) of None \<Rightarrow> [] | Some sid \<Rightarrow> [MapHas sid])"
  using assms by (simp add: post_handler_def split: option.splits)

section \<open>Claims\<close>

text \<open>
  C10. \<^verbatim>\<open>extractAgentIdFromAuth\<close> returns an agent identifier exactly when the header
  has the shape of \<^verbatim>\<open>Bearer\<close> (in any case), one or more white space characters and a
  token, and \<^verbatim>\<open>UuidIdSchema.parse\<close> accepts the captured token; the identifier is what
  the parse returns. In every other case (no header, another shape, a token the parse
  rejects) the result is null.
\<close>

theorem extractAgentIdFromAuth_bearer_uuid:
  "(extractAgentIdFromAuth parse hdr = Some a \<longleftrightarrow>
      (\<exists>h t. hdr = Some h \<and> bearer_token h t \<and> parse t = Some a)) \<and>
   (extractAgentIdFromAuth parse hdr = None \<longleftrightarrow>
      \<not> (\<exists>h t a'. hdr = Some h \<and> bearer_token h t \<and> parse t = Some a'))"
proof -
  have some: "\<And>a. extractAgentIdFromAuth parse hdr = Some a \<longleftrightarrow>
      (\<exists>h t. hdr = Some h \<and> bearer_token h t \<and> parse t = Some a)"
  proof (cases hdr)
    case None
    then show "\<And>a. ?thesis a" by (simp add: extractAgentIdFromAuth_def)
  next
    case (Some h)
    show "\<And>a. ?thesis a"
    proof (cases "bearer_match h")
      case None
      then have "\<And>t. \<not> bearer_token h t" by (simp add: bearer_match_iff [symmetric])
      with None Some show "\<And>a. ?thesis a" by (simp add: extractAgentIdFromAuth_def)
    next
      case (Some t0)
      then have t0: "bearer_token h t0" by (simp add: bearer_match_iff)
      then have ne: "h \<noteq> []" by (rule bearer_token_nonempty)
      have uniq: "\<And>t. bearer_token h t \<longleftrightarrow> t = t0"
        using Some by (auto simp: bearer_match_iff [symmetric])
      from Some ne \<open>hdr = Some h\<close> show "\<And>a. ?thesis a"
        by (simp add: extractAgentIdFromAuth_def uniq)
    qed
  qed
  have "extractAgentIdFromAuth parse hdr = None \<longleftrightarrow>
      \<not> (\<exists>a'. extractAgentIdFromAuth parse hdr = Some a')"
    by auto
  also have "\<dots> \<longleftrightarrow> \<not> (\<exists>h t a'. hdr = Some h \<and> bearer_token h t \<and> parse t = Some a')"
    using some by blast
  finally show ?thesis using some by blast
qed

theorem extractAgentIdFromAuth_bearer_uuid_witness:
  "extractAgentIdFromAuth (UuidIdSchema_parse example_env)
       (Some (''bearer  '' @ example_agent)) = Some example_agent \<and>
   (\<exists>h t. Some (''bearer  '' @ example_agent) = Some h \<and> bearer_token h t \<and>
      UuidIdSchema_parse example_env t = Some example_agent)"
proof -
  have e: "extractAgentIdFromAuth (UuidIdSchema_parse example_env)
       (Some (''bearer  '' @ example_agent)) = Some example_agent"
    by (simp add: extractAgentIdFromAuth_def bearer_match_def canonicalize_def is_space_def
        dot_plus_end_def is_line_terminator_def example_env_def example_agent_def)
  with extractAgentIdFromAuth_bearer_uuid
    [of "UuidIdSchema_parse example_env" "Some (''bearer  '' @ example_agent)" example_agent]
  show ?thesis by blast
qed

text \<open>
  C7. The normalization of the result's content is the identity on an array and wraps
  every other value as a one-element array holding one text block with the value's
  \<^verbatim>\<open>JSON.stringify\<close>; so it is idempotent and its result is always an array. Whenever
  the handler returns a result for a tool that is not builtin, that result's content is
  the provider's array, or else the one text block whose text is the serialization, a
  string (for \<^verbatim>\<open>undefined\<close> content the handler throws before it gets there).
\<close>

theorem normalizeContent_identity_wrap_idempotent:
  "(Array_isArray c \<longrightarrow> normalizeContent ser c = c) \<and>
   (\<not> Array_isArray c \<longrightarrow>
      normalizeContent ser c =
        JArr [JObj [(''type'', JStr ''text''),
                    (''text'', (case JSON_stringify ser c of
                                  Some t \<Rightarrow> JStr t
                                | None \<Rightarrow> JUndefined))]]) \<and>
   normalizeContent ser (normalizeContent ser c) = normalizeContent ser c \<and>
   Array_isArray (normalizeContent ser c) \<and>
   (\<forall>r. fst (callToolHandler env agentId agent name args) = Inr r \<and>
        \<not> startsWith name (MCP_SERVER_NAME env @ MCP_SERVER_TOOL_NAME_SEPARATOR) \<longrightarrow>
        (\<exists>result.
           executeToolCall env
             \<lparr> call_id = toolCallId env, call_name = name,
               call_arguments = (case args of Some a \<Rightarrow> a | None \<Rightarrow> []) \<rparr> agentId
             = Inr result \<and>
           r = JObj [(''content'',
                        if Array_isArray (content result) then content result
                        else JArr [JObj [(''type'', JStr ''text''),
                                         (''text'',
                                            JStr (stringify_text env (content result)))]]),
                     (''isError'', JBool False)]))"
proof -
  have arr: "Array_isArray (normalizeContent ser c)" for ser c
    by (simp add: normalizeContent_def Array_isArray_def)
  have idem: "normalizeContent ser (normalizeContent ser c) = normalizeContent ser c"
    using arr [of ser c] by (simp add: normalizeContent_def [of ser "normalizeContent ser c"])
  have h: "\<exists>result.
           executeToolCall env
             \<lparr> call_id = toolCallId env, call_name = name,
               call_arguments = (case args of Some a \<Rightarrow> a | None \<Rightarrow> []) \<rparr> agentId
             = Inr result \<and>
           r = JObj [(''content'',
                        if Array_isArray (content result) then content result
                        else JArr [JObj [(''type'', JStr ''text''),
                                         (''text'',
                                            JStr (stringify_text env (content result)))]]),
                     (''isError'', JBool False)]"
    if "fst (callToolHandler env agentId agent name args) = Inr r"
      and "\<not> startsWith name (MCP_SERVER_NAME env @ MCP_SERVER_TOOL_NAME_SEPARATOR)" for r
    using that
    by (auto simp: callToolHandler_def Let_def resultContentLength_def normalizeContent_def
        JSON_stringify_def Array_isArray_def split: sum.splits if_splits jsval.splits)
  show ?thesis using arr idem h by (simp add: normalizeContent_def)
qed

theorem normalizeContent_identity_wrap_idempotent_witness:
  "Array_isArray (JArr [JStr ''a'']) \<and>
   normalizeContent (stringify_text example_tool_env) (JArr [JStr ''a'']) = JArr [JStr ''a''] \<and>
   \<not> Array_isArray (JNum 42) \<and>
   normalizeContent (stringify_text example_tool_env) (JNum 42) =
     JArr [JObj [(''type'', JStr ''text''), (''text'', JStr ''42'')]] \<and>
   fst (callToolHandler example_tool_env example_agent () ''github__x'' None) =
     Inr (JObj [(''content'', JArr [JObj [(''type'', JStr ''text''), (''text'', JStr ''42'')]]),
                (''isError'', JBool False)])"
proof -
  have a: "Array_isArray (JArr [JStr ''a''])" "\<not> Array_isArray (JNum 42)"
    by (simp_all add: Array_isArray_def)
  have s: "JSON_stringify (stringify_text example_tool_env) (JNum 42) = Some ''42''"
    by (simp add: JSON_stringify_def example_tool_env_def)
  have r: "fst (callToolHandler example_tool_env example_agent () ''github__x'' None) =
     Inr (JObj [(''content'', JArr [JObj [(''type'', JStr ''text''), (''text'', JStr ''42'')]]),
                (''isError'', JBool False)])"
    by (simp add: callToolHandler_def example_tool_env_def Let_def startsWith_def
        MCP_SERVER_TOOL_NAME_SEPARATOR_def resultContentLength_def normalizeContent_def
        Array_isArray_def JSON_stringify_def)
  from a s r
    normalizeContent_identity_wrap_idempotent
      [of "JArr [JStr ''a'']" "stringify_text example_tool_env"
          example_tool_env example_agent "()" "''github__x''" None]
    normalizeContent_identity_wrap_idempotent
      [of "JNum 42" "stringify_text example_tool_env"
          example_tool_env example_agent "()" "''github__x''" None]
  show ?thesis by simp
qed

text \<open>
  C9. A \<^verbatim>\<open>tools/call\<close> whose tool name starts with \<^verbatim>\<open>MCP_SERVER_NAME\<close> followed by
  the separator is executed by \<^verbatim>\<open>executeArchestraTool\<close> with the agent of the server,
  and that is the handler's only call: no tool call is built and the MCP client is not
  invoked. The executor's response is returned as it is; when the executor throws
  instead, the handler's \<^verbatim>\<open>catch\<close> block throws.
\<close>

theorem callToolHandler_archestra_prefix:
  "startsWith name (MCP_SERVER_NAME env @ MCP_SERVER_TOOL_NAME_SEPARATOR) \<Longrightarrow>
   callToolHandler env agentId agent name args =
     ((case executeArchestraTool env name args agent of
         Inl e \<Rightarrow> Inl (tool_catch e)
       | Inr archestraResponse \<Rightarrow> Inr archestraResponse),
      [ArchestraExec name args agent])"
  by (simp add: callToolHandler_def Let_def split: sum.splits)

theorem callToolHandler_archestra_prefix_witness:
  "startsWith ''archestra__whoami''
     (MCP_SERVER_NAME example_tool_env @ MCP_SERVER_TOOL_NAME_SEPARATOR) \<and>
   callToolHandler example_tool_env example_agent () ''archestra__whoami'' None =
     (Inr (JObj [(''content'', JArr [JObj [(''type'', JStr ''text''),
                                           (''text'', JStr ''agent-1'')]]),
                 (''isError'', JBool False)]),
      [ArchestraExec ''archestra__whoami'' None ()])"
proof -
  have p: "startsWith ''archestra__whoami''
     (MCP_SERVER_NAME example_tool_env @ MCP_SERVER_TOOL_NAME_SEPARATOR)"
    by (simp add: startsWith_def example_tool_env_def MCP_SERVER_TOOL_NAME_SEPARATOR_def)
  have x: "executeArchestraTool example_tool_env ''archestra__whoami'' None () =
     Inr (JObj [(''content'', JArr [JObj [(''type'', JStr ''text''),
                                          (''text'', JStr ''agent-1'')]]),
                (''isError'', JBool False)])"
    by (simp add: example_tool_env_def)
  from p x callToolHandler_archestra_prefix [OF p, of example_agent "()" None]
  show ?thesis by simp
qed

text \<open>
  C2, as the code has it. When the provider of a tool that is not builtin returns a
  result with \<^verbatim>\<open>isError\<close> true, the handler throws a JSON-RPC error object with code
  -32603 whose message is the provider's error message (\<^verbatim>\<open>Tool execution failed\<close> when
  there is none or it is empty); it does not return a result.
\<close>

theorem callToolHandler_provider_failure_throws:
  "\<not> startsWith name (MCP_SERVER_NAME env @ MCP_SERVER_TOOL_NAME_SEPARATOR) \<Longrightarrow>
   executeToolCall env
     \<lparr> call_id = toolCallId env, call_name = name,
       call_arguments = (case args of Some a \<Rightarrow> a | None \<Rightarrow> []) \<rparr> agentId = Inr result \<Longrightarrow>
   isError result \<Longrightarrow>
   fst (callToolHandler env agentId agent name args) =
     Inl (Thrown (JObj [(''code'', JNum (- 32603)),
                        (''message'',
                           JStr (case error result of
                                   None \<Rightarrow> ''Tool execution failed''
                                 | Some m \<Rightarrow> if m = [] then ''Tool execution failed'' else m))])
            False)"
  by (simp add: callToolHandler_def Let_def tool_catch_def has_code_def)

theorem callToolHandler_provider_failure_throws_witness:
  "\<not> startsWith ''github__fail''
       (MCP_SERVER_NAME example_tool_env @ MCP_SERVER_TOOL_NAME_SEPARATOR) \<and>
   executeToolCall example_tool_env
     \<lparr> call_id = toolCallId example_tool_env, call_name = ''github__fail'',
       call_arguments = [] \<rparr> example_agent =
     Inr \<lparr> content = JNull, isError = True, error = Some ''boom'' \<rparr> \<and>
   fst (callToolHandler example_tool_env example_agent () ''github__fail'' None) =
     Inl (Thrown (JObj [(''code'', JNum (- 32603)), (''message'', JStr ''boom'')]) False)"
proof -
  have p: "\<not> startsWith ''github__fail''
       (MCP_SERVER_NAME example_tool_env @ MCP_SERVER_TOOL_NAME_SEPARATOR)"
    by (simp add: startsWith_def example_tool_env_def MCP_SERVER_TOOL_NAME_SEPARATOR_def)
  have x: "executeToolCall example_tool_env
     \<lparr> call_id = toolCallId example_tool_env, call_name = ''github__fail'',
       call_arguments = (case None of Some a \<Rightarrow> a | None \<Rightarrow> []) \<rparr> example_agent =
     Inr \<lparr> content = JNull, isError = True, error = Some ''boom'' \<rparr>"
    by (simp add: example_tool_env_def)
  have i: "isError \<lparr> content = JNull, isError = True, error = Some ''boom'' \<rparr>"
    by simp
  from p x callToolHandler_provider_failure_throws [OF p x i, of "()"]
  show ?thesis by simp
qed

text \<open>
  C2, as the specification states it, fails: for a provider result with \<^verbatim>\<open>isError\<close>
  true and error \<^verbatim>\<open>boom\<close> the handler does not return
  \<^verbatim>\<open>{isError: true, error: "boom"}\<close>; it throws the JSON-RPC error.
\<close>

theorem callToolHandler_provider_failure_counterexample:
  "callToolHandler example_tool_env example_agent () ''github__fail'' None =
     (Inl (Thrown (JObj [(''code'', JNum (- 32603)), (''message'', JStr ''boom'')]) False),
      [McpClientExec
         \<lparr> call_id = ''mcp-call-2000000-k3j9x1a'', call_name = ''github__fail'',
           call_arguments = [] \<rparr>
         example_agent])"
  by (simp add: callToolHandler_def example_tool_env_def Let_def startsWith_def
      MCP_SERVER_TOOL_NAME_SEPARATOR_def tool_catch_def has_code_def)

text \<open>
  C1, on the code: a \<^verbatim>\<open>tools/list\<close> request with a valid bearer token and a session
  identifier that is not in the session map (the session was created by an earlier
  \<^verbatim>\<open>initialize\<close> and the map was cleared since) is answered with status 400 and the
  message \<^verbatim>\<open>Bad Request: Invalid or expired session\<close>; the map stays empty and nothing
  is handed to a transport.
\<close>

theorem post_handler_expired_session_rejected:
  "post_handler example_env example_tools_list \<lparr> activeSessions = [], nextObj = 2 \<rparr> =
   (Reply 400
      (JObj [(''jsonrpc'', JStr ''2.0''),
             (''error'',
                JObj [(''code'', JNum (- 32000)),
                      (''message'', JStr ''Bad Request: Invalid or expired session'')]),
             (''id'', JNull)]),
    \<lparr> activeSessions = [], nextObj = 2 \<rparr>,
    [MapHas example_session])"
proof -
  have t: "truthy (Some example_session) = Some example_session"
    by (simp add: truthy_def example_session_def)
  show ?thesis
    by (simp add: post_handler_def example_tools_list_def example_auth_agent t
        invalid_session_rpc_def)
qed

text \<open>
  C3. A POST request with a valid bearer token whose session identifier is bound in the
  session map is served by the stored session: the request is handed to the stored
  transport, the entry keeps its server and transport objects and gets the current time
  as its last access, the keys of the map and all other entries stay as they were, no
  object is created, and no session is stored. This holds for every method, a repeated
  \<^verbatim>\<open>initialize\<close> included (the only difference there is the audit record). The
  identifier is not the empty string: the route never binds that one
  (\<open>post_handler_no_empty_key\<close>) and reads an empty header as no identifier.
\<close>

theorem post_handler_reuses_live_session:
  assumes auth: "extractAgentIdFromAuth (UuidIdSchema_parse env) (authorization req) = Some agentId"
    and hdr: "mcp_session_id req = Some sid" and ne: "sid \<noteq> []"
    and live: "map_of (activeSessions s) sid = Some d"
  shows "fst (snd (post_handler env req s)) =
           s\<lparr>activeSessions :=
               AList.update sid (d\<lparr>lastAccess := Date_now env\<rparr>) (activeSessions s)\<rparr> \<and>
         map_of (activeSessions (fst (snd (post_handler env req s)))) sid =
           Some \<lparr> server = server d, transport = transport d, lastAccess = Date_now env \<rparr> \<and>
         map fst (activeSessions (fst (snd (post_handler env req s)))) =
           map fst (activeSessions s) \<and>
         (\<forall>k. k \<noteq> sid \<longrightarrow>
            map_of (activeSessions (fst (snd (post_handler env req s)))) k =
              map_of (activeSessions s) k) \<and>
         nextObj (fst (snd (post_handler env req s))) = nextObj s \<and>
         snd (snd (post_handler env req s)) =
           [MapHas sid, MapGet sid, SetLastAccess sid (Date_now env), Hijack,
            HandleRequest (transport d)]
           @ (case transport_handleRequest env (transport d) (body req) of
                Inl e \<Rightarrow> []
              | Inr raw \<Rightarrow>
                  if map_of (body req) ''method'' = Some (JStr ''initialize'')
                  then [AuditCreate ''initialize''] else [])"
proof -
  from hdr ne have t: "truthy (mcp_session_id req) = Some sid" by (simp add: truthy_def)
  have p: "post_handler env req s =
      existing_session env req (map_of (body req) ''method'' = Some (JStr ''initialize'')) sid s"
    by (simp add: post_handler_def auth t live)
  have st: "fst (snd (post_handler env req s)) =
           s\<lparr>activeSessions :=
               AList.update sid (d\<lparr>lastAccess := Date_now env\<rparr>) (activeSessions s)\<rparr>"
    unfolding p by (rule existing_session_state [OF live])
  have k: "sid \<in> set (map fst (activeSessions s))"
    using live by (auto dest: map_of_SomeD intro: rev_image_eqI)
  have ev: "snd (snd (post_handler env req s)) =
           [MapHas sid, MapGet sid, SetLastAccess sid (Date_now env), Hijack,
            HandleRequest (transport d)]
           @ (case transport_handleRequest env (transport d) (body req) of
                Inl e \<Rightarrow> []
              | Inr raw \<Rightarrow>
                  if map_of (body req) ''method'' = Some (JStr ''initialize'')
                  then [AuditCreate ''initialize''] else [])"
    unfolding p by (simp add: existing_session_def live hand_off_def split: sum.splits)
  have d: "d\<lparr>lastAccess := Date_now env\<rparr> =
      \<lparr> server = server d, transport = transport d, lastAccess = Date_now env \<rparr>"
    by (cases d) simp
  show ?thesis
    unfolding st using k ev d by (simp add: AList.update_conv' AList.update_keys st)
qed

theorem post_handler_reuses_live_session_witness:
  "extractAgentIdFromAuth (UuidIdSchema_parse example_env) (authorization example_tools_list) =
     Some example_agent \<and>
   mcp_session_id example_tools_list = Some example_session \<and>
   example_session \<noteq> [] \<and>
   map_of (activeSessions example_live) example_session =
     Some \<lparr> server = 0, transport = 1, lastAccess = 1000000 \<rparr> \<and>
   fst (snd (post_handler example_env example_tools_list example_live)) =
     \<lparr> activeSessions =
         [(example_session, \<lparr> server = 0, transport = 1, lastAccess = 2000000 \<rparr>)],
       nextObj = 2 \<rparr> \<and>
   snd (snd (post_handler example_env example_tools_list example_live)) =
     [MapHas example_session, MapGet example_session, SetLastAccess example_session 2000000,
      Hijack, HandleRequest 1]"
proof -
  have a: "extractAgentIdFromAuth (UuidIdSchema_parse example_env)
      (authorization example_tools_list) = Some example_agent"
    by (simp add: example_tools_list_def example_auth_agent)
  have h: "mcp_session_id example_tools_list = Some example_session"
    by (simp add: example_tools_list_def)
  have n: "example_session \<noteq> []" by (simp add: example_session_def)
  have l: "map_of (activeSessions example_live) example_session =
     Some \<lparr> server = 0, transport = 1, lastAccess = 1000000 \<rparr>"
    by (simp add: example_live_def)
  have m: "map_of (body example_tools_list) ''method'' \<noteq> Some (JStr ''initialize'')"
    by (simp add: example_tools_list_def)
  have e: "Date_now example_env = 2000000"
    "transport_handleRequest example_env 1 (body example_tools_list) = Inr ''ok''"
    by (simp_all add: example_env_def)
  from post_handler_reuses_live_session [OF a h n l] a h n l m e show ?thesis
    by (simp add: example_live_def)
qed

text \<open>
  C4. In every run of the POST route: (1) a store of a session is followed at once by
  the hand-off of the request to the transport just stored, with no hand-off before it,
  the session is in the final map, and the request is an \<^verbatim>\<open>initialize\<close>; (2) when
  the request finds no live session and is handed to a transport, then it is an
  \<^verbatim>\<open>initialize\<close>, the new session with that transport was stored right before the
  hand-off under the effective identifier, and it is in the final map; (3) an
  \<^verbatim>\<open>initialize\<close> with a valid token and no live session, whose agent exists and whose
  server connects, does store the new session and then hands the request off.
\<close>

theorem post_handler_stores_session_before_handoff:
  assumes run: "post_handler env req s = (resp, s', evs)"
  shows
    "(MapSet k d \<in> set evs \<longrightarrow>
        stored_then_handed k d evs \<and> map_of (activeSessions s') k = Some d \<and>
        map_of (body req) ''method'' = Some (JStr ''initialize'')) \<and>
     ((\<forall>sid. truthy (mcp_session_id req) = Some sid \<longrightarrow> map_of (activeSessions s) sid = None) \<and>
      HandleRequest tr \<in> set evs \<longrightarrow>
        map_of (body req) ''method'' = Some (JStr ''initialize'') \<and>
        stored_then_handed (effectiveSessionId env (truthy (mcp_session_id req)))
          \<lparr> server = nextObj s, transport = tr, lastAccess = Date_now env \<rparr> evs \<and>
        map_of (activeSessions s') (effectiveSessionId env (truthy (mcp_session_id req))) =
          Some \<lparr> server = nextObj s, transport = tr, lastAccess = Date_now env \<rparr>) \<and>
     (extractAgentIdFromAuth (UuidIdSchema_parse env) (authorization req) = Some agentId \<and>
      map_of (body req) ''method'' = Some (JStr ''initialize'') \<and>
      (\<forall>sid. truthy (mcp_session_id req) = Some sid \<longrightarrow> map_of (activeSessions s) sid = None) \<and>
      AgentModel_findById env agentId \<noteq> None \<and>
      server_connect env (nextObj s) (Suc (nextObj s)) = None \<longrightarrow>
        stored_then_handed (effectiveSessionId env (truthy (mcp_session_id req)))
          \<lparr> server = nextObj s, transport = Suc (nextObj s), lastAccess = Date_now env \<rparr> evs \<and>
        map_of (activeSessions s') (effectiveSessionId env (truthy (mcp_session_id req))) =
          Some \<lparr> server = nextObj s, transport = Suc (nextObj s), lastAccess = Date_now env \<rparr>)"
proof (cases "extractAgentIdFromAuth (UuidIdSchema_parse env) (authorization req)")
  case None
  with run have "evs = []" by (auto simp: post_handler_def)
  with None show ?thesis by simp
next
  case (Some a)
  let ?init = "map_of (body req) ''method'' = Some (JStr ''initialize'')"
  let ?nolive = "\<forall>sid. truthy (mcp_session_id req) = Some sid \<longrightarrow>
                   map_of (activeSessions s) sid = None"
  let ?eff = "effectiveSessionId env (truthy (mcp_session_id req))"
  let ?ev0 = "case truthy (mcp_session_id req) of None \<Rightarrow> [] | Some sid \<Rightarrow> [MapHas sid]"
  have clean: "\<forall>tr. HandleRequest tr \<notin> set ?ev0" "\<forall>k v. MapSet k v \<notin> set ?ev0"
    by (simp_all split: option.splits)
  show ?thesis
  proof (cases ?nolive)
    case False
    then obtain sid' d' where live: "truthy (mcp_session_id req) = Some sid'"
      "map_of (activeSessions s) sid' = Some d'" by auto
    with run Some have "existing_session env req ?init sid' s = (resp, s', evs)"
      by (simp add: post_handler_def)
    then have "\<And>k v. MapSet k v \<notin> set evs" by (rule existing_session_events)
    moreover have "\<not> ?nolive" using live by simp
    ultimately show ?thesis by blast
  next
    case nolive: True
    show ?thesis
    proof (cases ?init)
      case False
      from post_handler_no_session_not_initialize [OF Some False nolive] run
      have "evs = ?ev0" by simp
      with clean False show ?thesis by simp
    next
      case init: True
      from post_handler_new_branch [OF Some init nolive] run
      have n: "new_session env req a (truthy (mcp_session_id req)) s ?ev0 = (resp, s', evs)"
        by simp
      let ?d = "\<lparr> server = nextObj s, transport = Suc (nextObj s), lastAccess = Date_now env \<rparr>"
      from new_session_trace [OF n clean]
      have "(AgentModel_findById env a \<noteq> None \<and>
             server_connect env (nextObj s) (Suc (nextObj s)) = None \<and>
             stored_then_handed ?eff ?d evs \<and> map_of (activeSessions s') ?eff = Some ?d) \<or>
            ((AgentModel_findById env a = None \<or>
              server_connect env (nextObj s) (Suc (nextObj s)) \<noteq> None) \<and>
             (\<forall>tr. HandleRequest tr \<notin> set evs) \<and> (\<forall>k v. MapSet k v \<notin> set evs))" .
      then show ?thesis
      proof
        assume ok: "AgentModel_findById env a \<noteq> None \<and>
             server_connect env (nextObj s) (Suc (nextObj s)) = None \<and>
             stored_then_handed ?eff ?d evs \<and> map_of (activeSessions s') ?eff = Some ?d"
        then have sh: "stored_then_handed ?eff ?d evs" by simp
        have a1: "MapSet k d \<in> set evs \<longrightarrow> k = ?eff \<and> d = ?d"
          using stored_then_handed_MapSet [OF sh] by blast
        have a2: "HandleRequest tr \<in> set evs \<longrightarrow> tr = Suc (nextObj s)"
          using stored_then_handed_HandleRequest [OF sh] by auto
        from ok a1 a2 init show ?thesis by auto
      next
        assume fail: "(AgentModel_findById env a = None \<or>
              server_connect env (nextObj s) (Suc (nextObj s)) \<noteq> None) \<and>
             (\<forall>tr. HandleRequest tr \<notin> set evs) \<and> (\<forall>k v. MapSet k v \<notin> set evs)"
        with Some init show ?thesis by auto
      qed
    qed
  qed
qed

theorem post_handler_stores_session_before_handoff_witness:
  "post_handler example_env example_initialize \<lparr> activeSessions = [], nextObj = 0 \<rparr> =
     (Raw ''ok'',
      \<lparr> activeSessions =
          [(example_session, \<lparr> server = 0, transport = 1, lastAccess = 2000000 \<rparr>)],
        nextObj = 2 \<rparr>,
      [MapHas example_session, MapKeys, CreateAgentServer example_agent,
       CreateTransport example_session, ServerConnect 0 1,
       MapSet example_session \<lparr> server = 0, transport = 1, lastAccess = 2000000 \<rparr>,
       Hijack, HandleRequest 1, AuditCreate ''initialize'']) \<and>
   stored_then_handed example_session \<lparr> server = 0, transport = 1, lastAccess = 2000000 \<rparr>
      [MapHas example_session, MapKeys, CreateAgentServer example_agent,
       CreateTransport example_session, ServerConnect 0 1,
       MapSet example_session \<lparr> server = 0, transport = 1, lastAccess = 2000000 \<rparr>,
       Hijack, HandleRequest 1, AuditCreate ''initialize'']"
proof -
  have t: "truthy None = None" by (simp add: truthy_def)
  have f: "effectiveSessionId example_env None = example_session"
    by (simp add: effectiveSessionId_def example_env_def example_session_def)
  have e: "Date_now example_env = 2000000" "server_connect example_env 0 1 = None"
    "AgentModel_findById example_env example_agent = Some ()"
    "transport_handleRequest example_env 1 (body example_initialize) = Inr ''ok''"
    by (simp_all add: example_env_def)
  have run: "post_handler example_env example_initialize \<lparr> activeSessions = [], nextObj = 0 \<rparr> =
     (Raw ''ok'',
      \<lparr> activeSessions =
          [(example_session, \<lparr> server = 0, transport = 1, lastAccess = 2000000 \<rparr>)],
        nextObj = 2 \<rparr>,
      [MapHas example_session, MapKeys, CreateAgentServer example_agent,
       CreateTransport example_session, ServerConnect 0 1,
       MapSet example_session \<lparr> server = 0, transport = 1, lastAccess = 2000000 \<rparr>,
       Hijack, HandleRequest 1, AuditCreate ''initialize''])"
    by (simp add: post_handler_def example_initialize_def example_auth_agent t
        new_session_def f createAgentServer_def createTransport_def e hand_off_def
        e(2,4) [unfolded example_initialize_def, simplified] Let_def numeral_2_eq_2)
  have a: "extractAgentIdFromAuth (UuidIdSchema_parse example_env)
      (authorization example_initialize) = Some example_agent"
    by (simp add: example_initialize_def example_auth_agent)
  have i: "map_of (body example_initialize) ''method'' = Some (JStr ''initialize'')"
    by (simp add: example_initialize_def)
  have m: "truthy (mcp_session_id example_initialize) = None"
    by (simp add: example_initialize_def truthy_def)
  from post_handler_stores_session_before_handoff [OF run, of example_session
      "\<lparr> server = 0, transport = 1, lastAccess = 2000000 \<rparr>" 1 example_agent]
    run a i m e f
  show ?thesis by simp
qed

text \<open>
  C5. On a session map (identifiers are its keys, so they are distinct) one run of
  \<^verbatim>\<open>cleanupExpiredSessions\<close> at time \<open>now\<close> keeps exactly the entries whose last access
  is at most 1800000 ms (30 minutes) old, in their order and with their data unchanged,
  and removes the others. The timer period is 300000 ms (5 minutes), and the POST route
  itself removes no session.
\<close>

theorem cleanupExpiredSessions_removes_exactly_expired:
  assumes "distinct (map fst (activeSessions s))"
  shows "activeSessions (cleanupExpiredSessions now s) =
           filter (\<lambda>(sessionId, sessionData). \<not> now - lastAccess sessionData > 1800000)
             (activeSessions s) \<and>
         (\<forall>sid. map_of (activeSessions (cleanupExpiredSessions now s)) sid =
            (case map_of (activeSessions s) sid of
               None \<Rightarrow> None
             | Some d \<Rightarrow> if now - lastAccess d > 1800000 then None else Some d)) \<and>
         nextObj (cleanupExpiredSessions now s) = nextObj s \<and>
         CLEANUP_INTERVAL_MS = 300000 \<and>
         fst ` set (activeSessions s)
           \<subseteq> fst ` set (activeSessions (fst (snd (post_handler env req s))))"
proof -
  have f: "activeSessions (cleanupExpiredSessions now s) =
           filter (\<lambda>(sessionId, sessionData). \<not> now - lastAccess sessionData > 1800000)
             (activeSessions s)"
    using sweep_filter [OF assms, of now]
    by (simp add: cleanupExpiredSessions_def SESSION_TIMEOUT_MS_def)
  have m: "map_of (activeSessions (cleanupExpiredSessions now s)) sid =
            (case map_of (activeSessions s) sid of
               None \<Rightarrow> None
             | Some d \<Rightarrow> if now - lastAccess d > 1800000 then None else Some d)" for sid
    unfolding f
    using map_of_filter_distinct [OF assms, of "\<lambda>d. \<not> now - lastAccess d > 1800000" sid]
    by (auto split: option.splits)
  have k: "fst ` set (activeSessions s)
           \<subseteq> fst ` set (activeSessions (fst (snd (post_handler env req s))))"
    by (rule post_handler_keys)
  show ?thesis using f m k by (simp add: cleanupExpiredSessions_def CLEANUP_INTERVAL_MS_def)
qed

theorem cleanupExpiredSessions_removes_exactly_expired_witness:
  "distinct (map fst (activeSessions example_idle)) \<and>
   activeSessions (cleanupExpiredSessions 2000000 example_idle) =
     [(''session-b'', \<lparr> server = 2, transport = 3, lastAccess = 1000000 \<rparr>)] \<and>
   CLEANUP_INTERVAL_MS = 300000"
proof -
  have d: "distinct (map fst (activeSessions example_idle))"
    by (simp add: example_idle_def)
  from cleanupExpiredSessions_removes_exactly_expired [OF d, of 2000000 example_env example_tools_list] d show ?thesis
    by (simp add: example_idle_def)
qed

text \<open>
  C6. When \<^verbatim>\<open>extractAgentIdFromAuth\<close> gives null (the header is absent or is not a
  bearer token that parses as an agent identifier), the GET route answers 401 and the
  POST route answers 401 with a JSON-RPC error of code -32000; the POST route leaves the
  state as it was and makes no access to the session map and no call to a collaborator.
\<close>

theorem unauthorized_request_no_session_work:
  assumes "extractAgentIdFromAuth (UuidIdSchema_parse env) (authorization req) = None"
  shows "get_handler env req =
           Reply 401
             (JObj [(''error'', JStr ''Unauthorized''),
                    (''message'',
                       JStr ''Missing or invalid Authorization header. Expected: Bearer <agent-id>'')]) \<and>
         post_handler env req s =
           (Reply 401
              (JObj [(''jsonrpc'', JStr ''2.0''),
                     (''error'',
                        JObj [(''code'', JNum (- 32000)),
                              (''message'',
                                 JStr (''Unauthorized: Missing or invalid Authorization header. ''
                                       @ ''Expected: Bearer <agent-id>''))]),
                     (''id'', JNull)]),
            s, [])"
  using assms
  by (simp add: get_handler_def post_handler_def unauthorized_get_def unauthorized_rpc_def)

theorem unauthorized_request_no_session_work_witness:
  "extractAgentIdFromAuth (UuidIdSchema_parse example_env)
     (authorization (example_tools_list\<lparr>authorization := Some ''Bearer agent-1''\<rparr>)) = None \<and>
   get_handler example_env (example_tools_list\<lparr>authorization := Some ''Bearer agent-1''\<rparr>) =
     (Reply 401 unauthorized_get :: string http_response) \<and>
   post_handler example_env (example_tools_list\<lparr>authorization := Some ''Bearer agent-1''\<rparr>)
       example_live =
     (Reply 401 unauthorized_rpc, example_live, [])"
proof -
  have n: "extractAgentIdFromAuth (UuidIdSchema_parse example_env)
     (authorization (example_tools_list\<lparr>authorization := Some ''Bearer agent-1''\<rparr>)) = None"
    by (simp add: extractAgentIdFromAuth_def bearer_match_def canonicalize_def is_space_def
        dot_plus_end_def is_line_terminator_def example_env_def example_agent_def)
  from unauthorized_request_no_session_work [OF n, of example_live] n show ?thesis
    by (simp add: unauthorized_get_def unauthorized_rpc_def)
qed

text \<open>
  C8. \<^verbatim>\<open>getToolCalls\<close> returns one call for every tool invocation block of the
  response, in the order of the blocks, with the block's identifier and name and with
  its input as arguments (the empty mapping when the block has none); the number of
  calls is the number of such blocks, and a response without them gives the empty
  sequence.
\<close>

theorem getToolCalls_one_call_per_block_in_order:
  "getToolCalls blocks =
     map (\<lambda>b. \<lparr> call_id = block_id b, call_name = block_name b,
                 call_arguments = (case block_input b of None \<Rightarrow> [] | Some a \<Rightarrow> a) \<rparr>)
       (filter is_tool_use blocks) \<and>
   length (getToolCalls blocks) = length (filter is_tool_use blocks) \<and>
   (filter is_tool_use blocks = [] \<longrightarrow> getToolCalls blocks = [])"
proof -
  have m: "getToolCalls blocks =
     map (\<lambda>b. \<lparr> call_id = block_id b, call_name = block_name b,
                 call_arguments = (case block_input b of None \<Rightarrow> [] | Some a \<Rightarrow> a) \<rparr>)
       (filter is_tool_use blocks)"
    by (induction blocks rule: getToolCalls.induct) (simp_all add: is_tool_use_def)
  then have "length (getToolCalls blocks) = length (filter is_tool_use blocks)"
    by simp
  with m show ?thesis by simp
qed

theorem getToolCalls_one_call_per_block_in_order_witness:
  "filter is_tool_use [Text_block ''hello''] = [] \<and> getToolCalls [Text_block ''hello''] = [] \<and>
   getToolCalls
     [Tool_use ''tool_1'' ''tool_one'' (Some [(''param'', JStr ''value1'')]),
      Text_block ''and'',
      Tool_use ''tool_empty'' ''empty_tool'' None] =
     [\<lparr> call_id = ''tool_1'', call_name = ''tool_one'',
        call_arguments = [(''param'', JStr ''value1'')] \<rparr>,
      \<lparr> call_id = ''tool_empty'', call_name = ''empty_tool'', call_arguments = [] \<rparr>]"
proof -
  have e: "filter is_tool_use [Text_block ''hello''] = []"
    by (simp add: is_tool_use_def)
  from getToolCalls_one_call_per_block_in_order [of "[Text_block ''hello'']"] e
    getToolCalls_one_call_per_block_in_order [of "[Tool_use ''tool_1'' ''tool_one'' (Some [(''param'', JStr ''value1'')]),
             Text_block ''and'', Tool_use ''tool_empty'' ''empty_tool'' None]"]
  show ?thesis by (simp add: is_tool_use_def)
qed

end
